theory Spec2Isabelle
  imports Main "HOL-Library.Word" "HOL-Library.Code_Target_Numeral"
begin

unbundle bit_operations_syntax

section \<open>The CTIM codec of \<open>ctim.cpp\<close>\<close>

text \<open>
  The repository is one C++ file with two functions, \<open>encodeCTIM\<close> and the template
  \<open>decodeCTIM\<close>. Both are \<open>noexcept\<close> and return a \<open>std::optional\<close>. The
  fixed-width unsigned types of the source are words of the same width.
\<close>

type_synonym uint16_t = "16 word"
type_synonym uint32_t = "32 word"
type_synonym uint64_t = "64 word"

subsection \<open>Writing a 64-bit value to a stream in hexadecimal\<close>

text \<open>
  \<open>buffer << std::hex << std::uppercase << std::setfill('0') << std::setw(16) << ctimValue\<close>:
  the stream writes the digits of the value in base 16 with the letters \<open>A\<close> to \<open>F\<close>,
  most significant digit first and at least one digit, and then fills on the left with
  the fill character up to the field width. The model is the stream in the classic
  locale (no digit grouping).
\<close>

definition hex_digit_upper :: "nat \<Rightarrow> char" where
  "hex_digit_upper d = char_of (if d < 10 then 48 + d else 55 + d)"

fun put_hex_upper :: "nat \<Rightarrow> string" where
  "put_hex_upper n =
     (if n < 16 then [hex_digit_upper n]
      else put_hex_upper (n div 16) @ [hex_digit_upper (n mod 16)])"

declare put_hex_upper.simps [simp del]

definition setfill_setw :: "char \<Rightarrow> nat \<Rightarrow> string \<Rightarrow> string" where
  "setfill_setw c w s = replicate (w - length s) c @ s"

definition format_hex16 :: "uint64_t \<Rightarrow> string" where
  "format_hex16 v = setfill_setw (CHR ''0'') 16 (put_hex_upper (unat v))"

subsection \<open>encodeCTIM\<close>

text \<open>
  Lines 24 to 26: the tag \<open>0xC0000000\<close> and the ledger index are added in 64 bits and
  shifted to the upper half; the transaction index, shifted by 16, and the network id are
  added to it. The source combines the three parts with \<open>+\<close>.
\<close>

definition ctimValue_of :: "uint32_t \<Rightarrow> uint16_t \<Rightarrow> uint16_t \<Rightarrow> uint64_t" where
  "ctimValue_of lgrIndex txnIndex networkId =
     push_bit 32 (0xC0000000 + (ucast lgrIndex :: uint64_t))
       + push_bit 16 (ucast txnIndex :: uint64_t) + (ucast networkId :: uint64_t)"

text \<open>
  The three range checks are those of lines 15 to 22. The parameters have the types
  \<open>uint32_t\<close>, \<open>uint16_t\<close> and \<open>uint16_t\<close>; the two 16-bit arguments are promoted to
  \<open>int\<close> for their comparison, which is the comparison of their values.
\<close>

definition encodeCTIM :: "uint32_t \<Rightarrow> uint16_t \<Rightarrow> uint16_t \<Rightarrow> string option" where
  "encodeCTIM lgrIndex txnIndex networkId =
     (if lgrIndex > 0xFFFFFFF then None
      else if uint txnIndex > 0xFFFF then None
      else if uint networkId > 0xFFFF then None
      else Some (format_hex16 (ctimValue_of lgrIndex txnIndex networkId)))"

subsection \<open>The library calls of the text path of decodeCTIM\<close>

text \<open>
  \<open>std::regex_match(ctimString, std::regex("^[0-9A-F]+$"))\<close>: the whole string is a
  non-empty sequence of characters of the class \<open>[0-9A-F]\<close>.
\<close>

definition in_class_0_9A_F :: "char \<Rightarrow> bool" where
  "in_class_0_9A_F c =
     (let k = (of_char c :: nat) in (48 \<le> k \<and> k \<le> 57) \<or> (65 \<le> k \<and> k \<le> 70))"

definition regex_match_0_9A_F :: "string \<Rightarrow> bool" where
  "regex_match_0_9A_F s = (s \<noteq> [] \<and> list_all in_class_0_9A_F s)"

text \<open>
  \<open>std::stoull(str, nullptr, 16)\<close> calls \<open>strtoull\<close>: white space is skipped, one sign is
  accepted, then a prefix \<open>0x\<close> or \<open>0X\<close> that a hexadecimal digit follows, then the
  longest run of hexadecimal digits in either case. With no digit the call throws
  \<open>std::invalid_argument\<close>, with a value above \<open>ULLONG_MAX\<close> it throws
  \<open>std::out_of_range\<close>. An exception that leaves a \<open>noexcept\<close> function ends the
  process (\<open>std::terminate\<close>).
\<close>

datatype stoull_error = invalid_argument | out_of_range

definition isspace :: "char \<Rightarrow> bool" where
  "isspace c = (let k = (of_char c :: nat) in k = 32 \<or> (9 \<le> k \<and> k \<le> 13))"

definition digit_value :: "char \<Rightarrow> nat option" where
  "digit_value c =
     (let k = (of_char c :: nat) in
      if 48 \<le> k \<and> k \<le> 57 then Some (k - 48)
      else if 65 \<le> k \<and> k \<le> 70 then Some (k - 55)
      else if 97 \<le> k \<and> k \<le> 102 then Some (k - 87)
      else None)"

fun strtoull_sign :: "string \<Rightarrow> bool \<times> string" where
  "strtoull_sign [] = (False, [])"
| "strtoull_sign (c # cs) =
     (if c = CHR ''-'' then (True, cs)
      else if c = CHR ''+'' then (False, cs)
      else (False, c # cs))"

fun strtoull_prefix :: "string \<Rightarrow> string" where
  "strtoull_prefix (a # b # c # cs) =
     (if a = CHR ''0'' \<and> (b = CHR ''x'' \<or> b = CHR ''X'') \<and> digit_value c \<noteq> None
      then c # cs else a # b # c # cs)"
| "strtoull_prefix s = s"

text \<open>The digit loop: the value read so far, and whether a digit has been read.\<close>

fun strtoull_digits :: "nat \<Rightarrow> bool \<Rightarrow> string \<Rightarrow> nat \<times> bool" where
  "strtoull_digits acc any [] = (acc, any)"
| "strtoull_digits acc any (c # cs) =
     (case digit_value c of
        None \<Rightarrow> (acc, any)
      | Some d \<Rightarrow> strtoull_digits (acc * 16 + d) True cs)"

definition stoull16 :: "string \<Rightarrow> stoull_error + uint64_t" where
  "stoull16 str =
     (let (neg, s) = strtoull_sign (dropWhile isspace str);
          (n, any) = strtoull_digits 0 False (strtoull_prefix s)
      in if \<not> any then Inl invalid_argument
         else if n > 0xFFFFFFFFFFFFFFFF then Inl out_of_range
         else Inr (if neg then - word_of_nat n else word_of_nat n))"

subsection \<open>decodeCTIM\<close>

text \<open>
  The template dispatches on the type of its argument at compile time: a string type
  (\<open>std::string\<close>, \<open>char *\<close>, \<open>const char *\<close>, \<open>std::string_view\<close>), an integral type,
  whose value the assignment \<open>ctimValue = ctim\<close> converts to \<open>uint64_t\<close>, or any other
  type. The three instantiations are the three constructors of the input.
\<close>

datatype ctim_input = StringInput string | IntegralInput uint64_t | OtherInput

text \<open>Lines 57 to 64, shared by the string and the integral instantiation.\<close>

definition unpackCTIM :: "uint64_t \<Rightarrow> (uint32_t \<times> uint16_t \<times> uint16_t) option" where
  "unpackCTIM ctimValue =
     (if uint ctimValue > 0xFFFFFFFFFFFFFFFF
         \<or> ctimValue AND 0xF000000000000000 \<noteq> 0xC000000000000000
      then None
      else
        let lgrIndex = (ucast (drop_bit 32 ctimValue AND 0xFFFFFFF) :: uint32_t);
            txnIndex = (ucast (drop_bit 16 ctimValue AND 0xFFFF) :: uint16_t);
            networkId = (ucast (ctimValue AND 0xFFFF) :: uint16_t)
        in Some (lgrIndex, txnIndex, networkId))"

text \<open>
  The result of a call: \<open>Inr\<close> is the returned optional, \<open>Inl\<close> is the exception of
  \<open>std::stoull\<close> that would leave the function and end the process.
\<close>

definition decodeCTIM ::
  "ctim_input \<Rightarrow> stoull_error + (uint32_t \<times> uint16_t \<times> uint16_t) option" where
  "decodeCTIM ctim =
     (case ctim of
        StringInput ctimString \<Rightarrow>
          if length ctimString \<noteq> 16 then Inr None
          else if \<not> regex_match_0_9A_F ctimString then Inr None
          else (case stoull16 ctimString of
                  Inl e \<Rightarrow> Inl e
                | Inr ctimValue \<Rightarrow> Inr (unpackCTIM ctimValue))
      | IntegralInput v \<Rightarrow> Inr (unpackCTIM v)
      | OtherInput \<Rightarrow> Inr None)"

subsection \<open>The representation the specification asks for\<close>

text \<open>
  The specification's words for the output of the encoder: the fixed-width, zero-padded,
  uppercase hexadecimal representation of a value, most significant digit first. With
  \<open>k\<close> digits, the digit that counts \<open>16 ^ i\<close> is \<open>n div 16 ^ i mod 16\<close>, written with
  the characters \<open>0\<close> to \<open>9\<close> and \<open>A\<close> to \<open>F\<close>.
\<close>

definition spec_hex_fixed :: "nat \<Rightarrow> nat \<Rightarrow> string" where
  "spec_hex_fixed k n = map (\<lambda>i. ''0123456789ABCDEF'' ! (n div 16 ^ i mod 16)) (rev [0..<k])"

definition spec_hex16 :: "uint64_t \<Rightarrow> string" where
  "spec_hex16 v = spec_hex_fixed 16 (unat v)"

text \<open>
  The specification's formula for the value:
  \<open>(0xC0000000 + ledgerIndex) << 32 | (transactionIndex << 16) | networkId\<close>.
\<close>

definition spec_ctim_value :: "uint32_t \<Rightarrow> uint16_t \<Rightarrow> uint16_t \<Rightarrow> uint64_t" where
  "spec_ctim_value ledgerIndex transactionIndex networkId =
     push_bit 32 (0xC0000000 + (ucast ledgerIndex :: uint64_t))
       OR push_bit 16 (ucast transactionIndex :: uint64_t) OR (ucast networkId :: uint64_t)"

section \<open>Hexadecimal digits and the two library calls\<close>

lemma hex_digit_upper_table:
  assumes "d < 16"
  shows "hex_digit_upper d = ''0123456789ABCDEF'' ! d"
proof -
  from assms have "d = 0 \<or> d = 1 \<or> d = 2 \<or> d = 3 \<or> d = 4 \<or> d = 5 \<or> d = 6 \<or> d = 7
      \<or> d = 8 \<or> d = 9 \<or> d = 10 \<or> d = 11 \<or> d = 12 \<or> d = 13 \<or> d = 14 \<or> d = 15"
    by arith
  then show ?thesis
    by (elim disjE) (simp_all add: hex_digit_upper_def char_of_eq_iff)
qed

lemma in_class_0_9A_F_iff: "in_class_0_9A_F c \<longleftrightarrow> c \<in> set ''0123456789ABCDEF''"
proof
  assume "in_class_0_9A_F c"
  then have "(of_char c :: nat) \<in> {48,49,50,51,52,53,54,55,56,57,65,66,67,68,69,70}"
    unfolding in_class_0_9A_F_def Let_def by clarsimp arith
  then have "char_of (of_char c :: nat)
      \<in> char_of ` {48,49,50,51,52,53,54,55,56,57,65,66,67,68,69,70::nat}"
    by (rule imageI)
  then show "c \<in> set ''0123456789ABCDEF''"
    by (auto simp: char_of_eq_iff)
next
  assume "c \<in> set ''0123456789ABCDEF''"
  then show "in_class_0_9A_F c"
    by (auto simp: in_class_0_9A_F_def)
qed

lemma digit_value_hex_digit_upper: "d < 16 \<Longrightarrow> digit_value (hex_digit_upper d) = Some d"
  by (simp add: digit_value_def hex_digit_upper_def)

lemma in_class_hex_digit_upper: "d < 16 \<Longrightarrow> in_class_0_9A_F (hex_digit_upper d)"
  by (simp add: in_class_0_9A_F_def hex_digit_upper_def)

lemma in_class_digit_value: "in_class_0_9A_F c \<Longrightarrow> \<exists>d<16. digit_value c = Some d"
  by (auto simp: in_class_0_9A_F_def digit_value_def Let_def)

lemma in_class_not_space: "in_class_0_9A_F c \<Longrightarrow> \<not> isspace c"
  by (auto simp: in_class_0_9A_F_def isspace_def Let_def)

lemma in_class_not_sign: "in_class_0_9A_F c \<Longrightarrow> c \<noteq> CHR ''-'' \<and> c \<noteq> CHR ''+''"
  by (auto simp: in_class_0_9A_F_def)

lemma in_class_not_x: "in_class_0_9A_F c \<Longrightarrow> c \<noteq> CHR ''x'' \<and> c \<noteq> CHR ''X''"
  by (auto simp: in_class_0_9A_F_def)

subsection \<open>The stream writes the fixed-width representation\<close>

lemma map_rev_upt_Suc:
  "map f (rev [0..<Suc k]) = map (\<lambda>i. f (Suc i)) (rev [0..<k]) @ [f 0]"
proof -
  have "[0..<Suc k] = 0 # map Suc [0..<k]"
    by (simp add: upt_conv_Cons map_Suc_upt del: upt_Suc)
  then show ?thesis by (simp add: rev_map comp_def del: upt_Suc)
qed

lemma spec_hex_fixed_Suc:
  "spec_hex_fixed (Suc k) n = spec_hex_fixed k (n div 16) @ [hex_digit_upper (n mod 16)]"
  unfolding spec_hex_fixed_def
  by (simp add: map_rev_upt_Suc div_mult2_eq hex_digit_upper_table del: upt_Suc)

lemma length_spec_hex_fixed: "length (spec_hex_fixed k n) = k"
  by (simp add: spec_hex_fixed_def)

lemma hd_spec_hex_fixed:
  "hd (spec_hex_fixed (Suc k) n) = ''0123456789ABCDEF'' ! (n div 16 ^ k mod 16)"
  by (simp add: spec_hex_fixed_def)

lemma in_class_spec_hex_fixed: "list_all in_class_0_9A_F (spec_hex_fixed k n)"
proof (induction k arbitrary: n)
  case 0
  show ?case by (simp add: spec_hex_fixed_def)
next
  case (Suc k)
  then show ?case by (simp add: spec_hex_fixed_Suc in_class_hex_digit_upper)
qed

lemma setfill_setw_snoc: "setfill_setw c (Suc k) (s @ [d]) = setfill_setw c k s @ [d]"
  by (simp add: setfill_setw_def)

lemma put_hex_upper_fixed:
  "0 < k \<Longrightarrow> n < 16 ^ k \<Longrightarrow> setfill_setw (CHR ''0'') k (put_hex_upper n) = spec_hex_fixed k n"
proof (induction k arbitrary: n)
  case 0
  then show ?case by simp
next
  case (Suc k)
  show ?case
  proof (cases "k = 0")
    case True
    with Suc.prems have "n < 16" by simp
    with True show ?thesis
      by (simp add: put_hex_upper.simps setfill_setw_def spec_hex_fixed_def hex_digit_upper_table)
  next
    case False
    then have k: "0 < k" by simp
    from Suc.prems have lt: "n div 16 < 16 ^ k"
      by (simp add: less_mult_imp_div_less mult.commute)
    have IH: "setfill_setw (CHR ''0'') k (put_hex_upper (n div 16)) = spec_hex_fixed k (n div 16)"
      by (rule Suc.IH [OF k lt])
    show ?thesis
    proof (cases "n < 16")
      case True
      then have z: "n div 16 = 0" by simp
      have "setfill_setw (CHR ''0'') (Suc k) (put_hex_upper n)
            = setfill_setw (CHR ''0'') (Suc k) ([] @ [hex_digit_upper n])"
        using True by (simp add: put_hex_upper.simps)
      also have "\<dots> = replicate k (CHR ''0'') @ [hex_digit_upper n]"
        by (simp add: setfill_setw_def)
      also have "replicate k (CHR ''0'') = setfill_setw (CHR ''0'') k (put_hex_upper 0)"
      proof -
        have "put_hex_upper 0 = [CHR ''0'']"
          by (simp add: put_hex_upper.simps hex_digit_upper_table)
        moreover obtain j where "k = Suc j" using k by (cases k) simp_all
        ultimately show ?thesis
          by (simp add: setfill_setw_def replicate_append_same)
      qed
      finally show ?thesis using IH True z by (simp add: spec_hex_fixed_Suc)
    next
      case False
      then have "put_hex_upper n = put_hex_upper (n div 16) @ [hex_digit_upper (n mod 16)]"
        by (subst put_hex_upper.simps) simp
      then show ?thesis using IH by (simp add: setfill_setw_snoc spec_hex_fixed_Suc)
    qed
  qed
qed

lemma format_hex16_spec: "format_hex16 v = spec_hex16 v"
proof -
  have "unat v < 2 ^ 64" using unsigned_less [of v, where ?'a = nat] by simp
  then have "unat v < 16 ^ 16" by simp
  then show ?thesis
    unfolding format_hex16_def spec_hex16_def by (intro put_hex_upper_fixed) simp_all
qed

subsection \<open>Parsing a string of the class\<close>

lemma strtoull_prefix_in_class: "list_all in_class_0_9A_F s \<Longrightarrow> strtoull_prefix s = s"
  by (induction s rule: strtoull_prefix.induct) (auto dest: in_class_not_x)

lemma strtoull_sign_in_class: "list_all in_class_0_9A_F s \<Longrightarrow> strtoull_sign s = (False, s)"
  by (cases s) (auto dest: in_class_not_sign)

lemma dropWhile_isspace_in_class: "list_all in_class_0_9A_F s \<Longrightarrow> dropWhile isspace s = s"
  by (cases s) (auto dest: in_class_not_space)

lemma stoull16_in_class:
  assumes "list_all in_class_0_9A_F s"
  shows "stoull16 s =
     (let (n, any) = strtoull_digits 0 False s
      in if \<not> any then Inl invalid_argument
         else if n > 0xFFFFFFFFFFFFFFFF then Inl out_of_range
         else Inr (word_of_nat n))"
  using assms
  by (simp add: stoull16_def dropWhile_isspace_in_class strtoull_sign_in_class
      strtoull_prefix_in_class split: prod.splits)

lemma strtoull_digits_bound:
  "list_all in_class_0_9A_F s \<Longrightarrow>
     fst (strtoull_digits acc any s) < (acc + 1) * 16 ^ length s
     \<and> snd (strtoull_digits acc any s) = (any \<or> s \<noteq> [])"
proof (induction s arbitrary: acc any)
  case Nil
  then show ?case by simp
next
  case (Cons c cs)
  from Cons.prems obtain d where d: "d < 16" "digit_value c = Some d"
    using in_class_digit_value by auto
  from Cons.prems have cs: "list_all in_class_0_9A_F cs" by simp
  have "fst (strtoull_digits (acc * 16 + d) True cs) < (acc * 16 + d + 1) * 16 ^ length cs"
    using Cons.IH [OF cs, of "acc * 16 + d" True] by simp
  also have "\<dots> \<le> ((acc + 1) * 16) * 16 ^ length cs"
    using d(1) by (intro mult_right_mono) simp_all
  finally have "fst (strtoull_digits (acc * 16 + d) True cs) < (acc + 1) * 16 ^ length (c # cs)"
    by (simp add: algebra_simps)
  moreover have "snd (strtoull_digits (acc * 16 + d) True cs)"
    using Cons.IH [OF cs, of "acc * 16 + d" True] by simp
  ultimately show ?case using d(2) by simp
qed

lemma strtoull_digits_append:
  "list_all (\<lambda>c. digit_value c \<noteq> None) xs \<Longrightarrow>
   strtoull_digits acc any (xs @ ys)
     = strtoull_digits (fst (strtoull_digits acc any xs)) (snd (strtoull_digits acc any xs)) ys"
  by (induction xs arbitrary: acc any) auto

lemma strtoull_digits_spec_hex_fixed:
  "strtoull_digits acc any (spec_hex_fixed k n) = (acc * 16 ^ k + n mod 16 ^ k, any \<or> 0 < k)"
proof (induction k arbitrary: n)
  case 0
  then show ?case by (simp add: spec_hex_fixed_def)
next
  case (Suc k)
  have dig: "list_all (\<lambda>c. digit_value c \<noteq> None) (spec_hex_fixed k (n div 16))"
    using in_class_spec_hex_fixed [of k "n div 16"]
    by (auto simp: list_all_iff dest: in_class_digit_value)
  have "n mod (16 * 16 ^ k) = 16 * (n div 16 mod 16 ^ k) + n mod 16"
    by (rule mod_mult2_eq)
  then show ?case
    by (simp add: spec_hex_fixed_Suc strtoull_digits_append [OF dig] Suc.IH
        digit_value_hex_digit_upper algebra_simps)
qed

lemma stoull16_spec_hex_fixed:
  assumes "0 < k" "k \<le> 16"
  shows "stoull16 (spec_hex_fixed k n) = Inr (word_of_nat (n mod 16 ^ k))"
proof -
  have "n mod 16 ^ k < (16::nat) ^ k" by simp
  also have "(16::nat) ^ k \<le> 16 ^ 16" using assms(2) by (rule power_increasing) simp
  finally have "n mod 16 ^ k < 18446744073709551616" by simp
  then have "\<not> n mod 16 ^ k > 0xFFFFFFFFFFFFFFFF" by simp
  then show ?thesis
    using assms(1)
    by (simp add: stoull16_in_class [OF in_class_spec_hex_fixed]
        strtoull_digits_spec_hex_fixed)
qed

lemma stoull16_spec_hex16: "stoull16 (spec_hex16 v) = Inr v"
proof -
  have "unat v < 2 ^ 64" using unsigned_less [of v, where ?'a = nat] by simp
  then have "unat v mod 16 ^ 16 = unat v" by simp
  then show ?thesis
    by (simp add: spec_hex16_def stoull16_spec_hex_fixed)
qed

lemma stoull16_guarded:
  assumes "length s = 16" "list_all in_class_0_9A_F s"
  shows "fst (strtoull_digits 0 False s) \<le> 0xFFFFFFFFFFFFFFFF
     \<and> stoull16 s = Inr (word_of_nat (fst (strtoull_digits 0 False s)))"
proof -
  from assms(1) have ne: "s \<noteq> []" by auto
  have "fst (strtoull_digits 0 False s) < (0 + 1) * 16 ^ length s"
    and any: "snd (strtoull_digits 0 False s)"
    using strtoull_digits_bound [OF assms(2), of 0 False] ne by simp_all
  then have le: "fst (strtoull_digits 0 False s) \<le> 0xFFFFFFFFFFFFFFFF"
    using assms(1) by simp
  then have "\<not> fst (strtoull_digits 0 False s) > 0xFFFFFFFFFFFFFFFF" by simp
  with any le show ?thesis
    by (simp add: stoull16_in_class [OF assms(2)] case_prod_beta)
qed

section \<open>Packing and unpacking the 64-bit value\<close>

lemma c_mask28: "(0xFFFFFFF :: 'a::len word) = mask 28"
  by (simp add: mask_numeral)

lemma c_mask16: "(0xFFFF :: 'a::len word) = mask 16"
  by (simp add: mask_numeral)

lemma c_tag32: "(0xC0000000 :: uint64_t) = push_bit 30 (mask 2)"
  by (simp add: mask_numeral)

lemma c_tag64: "(0xC000000000000000 :: uint64_t) = push_bit 62 (mask 2)"
  by (simp add: mask_numeral)

lemma c_tagmask: "(0xF000000000000000 :: uint64_t) = push_bit 60 (mask 4)"
  by (simp add: mask_numeral)

text \<open>The three summands have no bit in common, so the sums of the source are bitwise ors.\<close>

lemma ctimValue_of_spec: "ctimValue_of l t n = spec_ctim_value l t n"
proof -
  let ?a = "push_bit 32 (0xC0000000 + (ucast l :: uint64_t))"
  let ?b = "push_bit 16 (ucast t :: uint64_t)"
  let ?c = "ucast n :: uint64_t"
  have ab: "?a AND ?b = 0"
    by (rule bit_word_eqI) (auto simp: bit_simps dest: bit_imp_le_length)
  have abc: "(?a OR ?b) AND ?c = 0"
    by (rule bit_word_eqI) (auto simp: bit_simps dest: bit_imp_le_length)
  have "?a + ?b = ?a OR ?b" using ab by (rule disjunctive_add_eq_or)
  moreover have "(?a OR ?b) + ?c = (?a OR ?b) OR ?c" using abc by (rule disjunctive_add_eq_or)
  ultimately show ?thesis by (simp add: ctimValue_of_def spec_ctim_value_def or.assoc)
qed

lemma in_range_take_bit:
  fixes l :: uint32_t
  shows "l \<le> 0xFFFFFFF \<longleftrightarrow> take_bit 28 l = l"
proof -
  have "l \<le> 0xFFFFFFF \<longleftrightarrow> unat l < 2 ^ 28"
    by (simp add: word_le_nat_alt) arith
  also have "\<dots> \<longleftrightarrow> take_bit 28 (unat l) = unat l"
    by (simp add: take_bit_nat_eq_self_iff)
  also have "\<dots> \<longleftrightarrow> take_bit 28 l = l"
    by (simp add: word_eq_iff_unsigned [where ?'a = nat] unsigned_take_bit_eq)
  finally show ?thesis .
qed

lemma in_range_bit:
  fixes l :: uint32_t
  assumes "l \<le> 0xFFFFFFF" "bit l i"
  shows "i < 28"
proof -
  from assms(1) have "take_bit 28 l = l" by (simp add: in_range_take_bit)
  with assms(2) have "bit (take_bit 28 l) i" by simp
  then show ?thesis by (simp add: bit_take_bit_iff)
qed

lemma tag_plus_or:
  fixes l :: uint32_t
  assumes "l \<le> 0xFFFFFFF"
  shows "0xC0000000 + (ucast l :: uint64_t) = push_bit 30 (mask 2) OR ucast l"
proof -
  have "push_bit 30 (mask 2) AND (ucast l :: uint64_t) = 0"
    by (rule bit_word_eqI) (auto simp: bit_simps dest: in_range_bit [OF assms])
  then have "push_bit 30 (mask 2) + (ucast l :: uint64_t) = push_bit 30 (mask 2) OR ucast l"
    by (rule disjunctive_add_eq_or)
  then show ?thesis by (simp only: c_tag32)
qed

lemma ctimValue_of_bits:
  fixes l :: uint32_t
  assumes "l \<le> 0xFFFFFFF"
  shows "ctimValue_of l t n =
     push_bit 62 (mask 2) OR push_bit 32 (ucast l) OR push_bit 16 (ucast t) OR ucast n"
  unfolding ctimValue_of_spec spec_ctim_value_def tag_plus_or [OF assms]
  by (rule bit_word_eqI) (auto simp: bit_simps)

lemma ctimValue_of_tag:
  fixes l :: uint32_t
  assumes "l \<le> 0xFFFFFFF"
  shows "ctimValue_of l t n AND 0xF000000000000000 = 0xC000000000000000"
  unfolding ctimValue_of_bits [OF assms] c_tagmask c_tag64
  by (rule bit_word_eqI) (auto simp: bit_simps dest: in_range_bit [OF assms] bit_imp_le_length)

lemma ctimValue_of_lgrIndex:
  fixes l :: uint32_t
  assumes "l \<le> 0xFFFFFFF"
  shows "(ucast (drop_bit 32 (ctimValue_of l t n) AND 0xFFFFFFF) :: uint32_t) = l"
  unfolding ctimValue_of_bits [OF assms] c_mask28
  by (rule bit_word_eqI) (auto simp: bit_simps dest: in_range_bit [OF assms] bit_imp_le_length)

lemma ctimValue_of_txnIndex:
  fixes l :: uint32_t
  assumes "l \<le> 0xFFFFFFF"
  shows "(ucast (drop_bit 16 (ctimValue_of l t n) AND 0xFFFF) :: uint16_t) = t"
  unfolding ctimValue_of_bits [OF assms] c_mask16
  by (rule bit_word_eqI) (auto simp: bit_simps dest: in_range_bit [OF assms] bit_imp_le_length)

lemma ctimValue_of_networkId:
  fixes l :: uint32_t
  assumes "l \<le> 0xFFFFFFF"
  shows "(ucast (ctimValue_of l t n AND 0xFFFF) :: uint16_t) = n"
  unfolding ctimValue_of_bits [OF assms] c_mask16
  by (rule bit_word_eqI) (auto simp: bit_simps dest: in_range_bit [OF assms] bit_imp_le_length)

lemma unpackCTIM_ctimValue_of:
  fixes l :: uint32_t
  assumes "l \<le> 0xFFFFFFF"
  shows "unpackCTIM (ctimValue_of l t n) = Some (l, t, n)"
proof -
  have "\<not> uint (ctimValue_of l t n) > 0xFFFFFFFFFFFFFFFF"
    using uint_lt2p [of "ctimValue_of l t n"] by simp
  then show ?thesis
    unfolding unpackCTIM_def Let_def
    by (simp only: ctimValue_of_tag [OF assms] ctimValue_of_lgrIndex [OF assms]
        ctimValue_of_txnIndex [OF assms] ctimValue_of_networkId [OF assms]) simp
qed

lemma unpackCTIM_tagged:
  "unpackCTIM v =
     (if v AND 0xF000000000000000 \<noteq> 0xC000000000000000 then None
      else Some (ucast (drop_bit 32 v AND 0xFFFFFFF), ucast (drop_bit 16 v AND 0xFFFF),
                 ucast (v AND 0xFFFF)))"
proof -
  have "\<not> uint v > 0xFFFFFFFFFFFFFFFF"
    using uint_lt2p [of v] by simp
  then show ?thesis by (simp add: unpackCTIM_def)
qed

lemma unpack_lgrIndex_le:
  "(ucast (drop_bit 32 (v :: uint64_t) AND 0xFFFFFFF) :: uint32_t) \<le> 0xFFFFFFF"
proof -
  have "take_bit 28 (ucast (drop_bit 32 v AND mask 28) :: uint32_t)
      = ucast (drop_bit 32 v AND mask 28)"
    by (rule bit_word_eqI) (auto simp: bit_simps)
  then have "(ucast (drop_bit 32 v AND mask 28) :: uint32_t) \<le> 0xFFFFFFF"
    by (simp only: in_range_take_bit)
  then show ?thesis by (simp only: c_mask28 [where ?'a = 64])
qed

lemma unpack_no_truncation:
  fixes v :: uint64_t
  shows "(ucast (ucast (drop_bit 32 v AND 0xFFFFFFF) :: uint32_t) :: uint64_t)
           = drop_bit 32 v AND 0xFFFFFFF"
    and "(ucast (ucast (drop_bit 16 v AND 0xFFFF) :: uint16_t) :: uint64_t)
           = drop_bit 16 v AND 0xFFFF"
    and "(ucast (ucast (v AND 0xFFFF) :: uint16_t) :: uint64_t) = v AND 0xFFFF"
  unfolding c_mask28 c_mask16
  by (rule bit_word_eqI; auto simp: bit_simps)+

lemma ctimValue_of_unpack:
  fixes v :: uint64_t
  assumes "v AND 0xF000000000000000 = 0xC000000000000000"
  shows "ctimValue_of (ucast (drop_bit 32 v AND 0xFFFFFFF)) (ucast (drop_bit 16 v AND 0xFFFF))
           (ucast (v AND 0xFFFF)) = v"
proof -
  have tag: "bit v i \<longleftrightarrow> 62 \<le> i" if "60 \<le> i" "i < 64" for i
  proof -
    from assms have "bit (v AND push_bit 60 (mask 4)) i = bit (push_bit 62 (mask 2) :: uint64_t) i"
      by (simp only: c_tagmask c_tag64)
    with that show ?thesis by (auto simp: bit_simps)
  qed
  show ?thesis
    unfolding ctimValue_of_bits [OF unpack_lgrIndex_le]
    unfolding c_mask28 c_mask16
  proof (rule bit_word_eqI)
    fix i
    assume "i < LENGTH(64)"
    then have i: "i < 64" by simp
    let ?w = "push_bit 62 (mask 2)
        OR push_bit 32 (ucast (ucast (drop_bit 32 v AND mask 28) :: uint32_t))
        OR push_bit 16 (ucast (ucast (drop_bit 16 v AND mask 16) :: uint16_t))
        OR ucast (ucast (v AND mask 16) :: uint16_t) :: uint64_t"
    consider "i < 16" | "16 \<le> i" "i < 32" | "32 \<le> i" "i < 60" | "60 \<le> i"
      by linarith
    then show "bit ?w i = bit v i"
    proof cases
      case 1
      then show ?thesis by (auto simp: bit_simps)
    next
      case 2
      then show ?thesis by (auto simp: bit_simps)
    next
      case 3
      then show ?thesis by (auto simp: bit_simps)
    next
      case 4
      then show ?thesis using tag [of i] i by (auto simp: bit_simps)
    qed
  qed
qed

text \<open>The value as a number: no addition and no shift of the source wraps around.\<close>

lemma unat_ctimValue_of:
  fixes l :: uint32_t
  assumes "l \<le> 0xFFFFFFF"
  shows "unat (ctimValue_of l t n) = (0xC0000000 + unat l) * 2 ^ 32 + unat t * 2 ^ 16 + unat n"
proof -
  have L: "unat l \<le> 0xFFFFFFF" using assms by (simp add: word_le_nat_alt)
  have T: "unat t < 2 ^ 16" using unsigned_less [of t, where ?'a = nat] by simp
  have N: "unat n < 2 ^ 16" using unsigned_less [of n, where ?'a = nat] by simp
  have ul: "unat (ucast l :: uint64_t) = unat l"
    using unsigned_less [of l, where ?'a = nat]
    by (simp add: unsigned_ucast_eq take_bit_nat_eq_self_iff)
  have ut: "unat (ucast t :: uint64_t) = unat t"
    using unsigned_less [of t, where ?'a = nat]
    by (simp add: unsigned_ucast_eq take_bit_nat_eq_self_iff)
  have un: "unat (ucast n :: uint64_t) = unat n"
    using unsigned_less [of n, where ?'a = nat]
    by (simp add: unsigned_ucast_eq take_bit_nat_eq_self_iff)
  have a: "unat (0xC0000000 + (ucast l :: uint64_t)) = 0xC0000000 + unat l"
    using L by (simp add: unat_word_ariths ul)
  have "unat (push_bit 32 (0xC0000000 + (ucast l :: uint64_t)))
        = take_bit 64 (push_bit 32 (unat (0xC0000000 + (ucast l :: uint64_t))))"
    by (simp only: unsigned_push_bit_eq len_bit0 len_num1) simp
  also have "\<dots> = (0xC0000000 + unat l) * 2 ^ 32"
    using L by (simp add: a take_bit_eq_mod push_bit_eq_mult)
  finally have b: "unat (push_bit 32 (0xC0000000 + (ucast l :: uint64_t)))
      = (0xC0000000 + unat l) * 2 ^ 32" .
  have "unat (push_bit 16 (ucast t :: uint64_t))
      = take_bit 64 (push_bit 16 (unat (ucast t :: uint64_t)))"
    by (simp only: unsigned_push_bit_eq len_bit0 len_num1) simp
  also have "\<dots> = unat t * 2 ^ 16"
    using T by (simp add: ut take_bit_eq_mod push_bit_eq_mult)
  finally have c: "unat (push_bit 16 (ucast t :: uint64_t)) = unat t * 2 ^ 16" .
  let ?a = "push_bit 32 (0xC0000000 + (ucast l :: uint64_t))"
  let ?b = "push_bit 16 (ucast t :: uint64_t)"
  have ab: "unat (?a + ?b) = (0xC0000000 + unat l) * 2 ^ 32 + unat t * 2 ^ 16"
    using L T by (subst unat_add_lem [THEN iffD1]) (simp_all add: b c)
  have "unat (?a + ?b + ucast n) = (0xC0000000 + unat l) * 2 ^ 32 + unat t * 2 ^ 16 + unat n"
    using L T N by (subst unat_add_lem [THEN iffD1]) (simp_all add: ab un)
  then show ?thesis
    by (simp only: ctimValue_of_def)
qed

lemma top_digit_ctimValue_of:
  fixes l :: uint32_t
  assumes "l \<le> 0xFFFFFFF"
  shows "unat (ctimValue_of l t n) div 16 ^ 15 mod 16 = 12"
proof -
  have L: "unat l \<le> 0xFFFFFFF" using assms by (simp add: word_le_nat_alt)
  have T: "unat t < 2 ^ 16" using unsigned_less [of t, where ?'a = nat] by simp
  have N: "unat n < 2 ^ 16" using unsigned_less [of n, where ?'a = nat] by simp
  show ?thesis
    using L T N unfolding unat_ctimValue_of [OF assms] by simp
qed

lemma encodeCTIM_in_range:
  "lgrIndex \<le> 0xFFFFFFF \<Longrightarrow>
   encodeCTIM lgrIndex txnIndex networkId
     = Some (format_hex16 (ctimValue_of lgrIndex txnIndex networkId))"
proof -
  assume "lgrIndex \<le> 0xFFFFFFF"
  moreover have "uint txnIndex < 2 ^ 16" "uint networkId < 2 ^ 16"
    using uint_lt2p [of txnIndex] uint_lt2p [of networkId] by simp_all
  ultimately show ?thesis by (simp add: encodeCTIM_def not_less)
qed

lemma encodeCTIM_out_of_range:
  "\<not> lgrIndex \<le> 0xFFFFFFF \<Longrightarrow> encodeCTIM lgrIndex txnIndex networkId = None"
  by (simp add: encodeCTIM_def not_le)

lemma uint16_le:
  fixes x :: uint16_t
  shows "uint x \<le> 0xFFFF"
  using uint_lt2p [of x] by simp

subsection \<open>Values of the functions at the inputs of the test cases\<close>

lemmas encode_eval = encodeCTIM_def ctimValue_of_def format_hex16_def setfill_setw_def
  put_hex_upper.simps hex_digit_upper_def char_of_eq_iff

lemmas decode_eval = decodeCTIM_def regex_match_0_9A_F_def in_class_0_9A_F_def stoull16_def
  isspace_def digit_value_def unpackCTIM_def

lemma encodeCTIM_max: "encodeCTIM 0xFFFFFFF 0xFFFF 0xFFFF = Some ''CFFFFFFFFFFFFFFF''"
  by (simp add: encode_eval)

lemma encodeCTIM_zero: "encodeCTIM 0 0 0 = Some ''C000000000000000''"
  by (simp add: encode_eval)

lemma encodeCTIM_1_2_3: "encodeCTIM 1 2 3 = Some ''C000000100020003''"
  by (simp add: encode_eval)

lemma encodeCTIM_sample: "encodeCTIM 13249191 12911 49221 = Some ''C0CA2AA7326FC045''"
  by (simp add: encode_eval)

lemma encodeCTIM_too_large: "encodeCTIM 0x10000000 0xFFFF 0xFFFF = None"
  by (simp add: encodeCTIM_def)

lemma decodeCTIM_value_1_2_3: "decodeCTIM (IntegralInput 0xC000000100020003) = Inr (Some (1, 2, 3))"
  by (simp add: decode_eval)

lemma decodeCTIM_string_1_2_3:
  "decodeCTIM (StringInput ''C000000100020003'') = Inr (Some (1, 2, 3))"
  by (simp add: decode_eval)

lemma decodeCTIM_string_sample:
  "decodeCTIM (StringInput ''C0CA2AA7326FC045'') = Inr (Some (13249191, 12911, 49221))"
  by (simp add: decode_eval)

lemma decodeCTIM_lowercase: "decodeCTIM (StringInput ''c0ca2aa7326fc045'') = Inr None"
  by (simp add: decode_eval)

lemma decodeCTIM_15_chars: "decodeCTIM (StringInput ''C003FFFFFFFFFFF'') = Inr None"
  by (simp add: decode_eval)

lemma decodeCTIM_wrong_tag: "decodeCTIM (IntegralInput 0xFFFFFFFFFFFFFFFF) = Inr None"
  by (simp add: decode_eval)

section \<open>The claims\<close>

text \<open>
  C1. Round trip. For every ledger index up to \<open>0xFFFFFFF\<close> and every transaction index
  and network id (a \<open>uint16_t\<close> never exceeds \<open>0xFFFF\<close>), \<open>encodeCTIM\<close> returns a
  string of 16 characters; \<open>decodeCTIM\<close> applied to that string returns the triple,
  the string parses to the 64-bit value that was written, and \<open>decodeCTIM\<close> applied to
  that value returns the triple too.
\<close>

theorem encode_decode_roundtrip:
  assumes "lgrIndex \<le> 0xFFFFFFF" "uint txnIndex \<le> 0xFFFF" "uint networkId \<le> 0xFFFF"
  shows "\<exists>s v. encodeCTIM lgrIndex txnIndex networkId = Some s \<and> length s = 16
           \<and> decodeCTIM (StringInput s) = Inr (Some (lgrIndex, txnIndex, networkId))
           \<and> stoull16 s = Inr v
           \<and> decodeCTIM (IntegralInput v) = Inr (Some (lgrIndex, txnIndex, networkId))"
proof -
  let ?v = "ctimValue_of lgrIndex txnIndex networkId"
  let ?s = "format_hex16 ?v"
  have enc: "encodeCTIM lgrIndex txnIndex networkId = Some ?s"
    using assms(1) by (rule encodeCTIM_in_range)
  have len: "length ?s = 16"
    by (simp add: format_hex16_spec spec_hex16_def length_spec_hex_fixed)
  have cls: "regex_match_0_9A_F ?s"
    using len in_class_spec_hex_fixed [of 16 "unat ?v"]
    by (auto simp: regex_match_0_9A_F_def format_hex16_spec spec_hex16_def)
  have parse: "stoull16 ?s = Inr ?v"
    by (simp add: format_hex16_spec stoull16_spec_hex16)
  have unp: "unpackCTIM ?v = Some (lgrIndex, txnIndex, networkId)"
    using assms(1) by (rule unpackCTIM_ctimValue_of)
  have "decodeCTIM (StringInput ?s) = Inr (Some (lgrIndex, txnIndex, networkId))"
    by (simp add: decodeCTIM_def len cls parse unp)
  moreover have "decodeCTIM (IntegralInput ?v) = Inr (Some (lgrIndex, txnIndex, networkId))"
    by (simp add: decodeCTIM_def unp)
  ultimately show ?thesis using enc len parse by blast
qed

theorem encode_decode_roundtrip_witness:
  "(13249191 :: uint32_t) \<le> 0xFFFFFFF \<and> uint (12911 :: uint16_t) \<le> 0xFFFF
   \<and> uint (49221 :: uint16_t) \<le> 0xFFFF
   \<and> (\<exists>s v. encodeCTIM 13249191 12911 49221 = Some s \<and> length s = 16
         \<and> decodeCTIM (StringInput s) = Inr (Some (13249191, 12911, 49221))
         \<and> stoull16 s = Inr v
         \<and> decodeCTIM (IntegralInput v) = Inr (Some (13249191, 12911, 49221)))"
  using encode_decode_roundtrip [of 13249191 12911 49221] by simp

text \<open>
  C2. For every in-range triple the result of \<open>encodeCTIM\<close> is the 16-character,
  uppercase, zero-padded hexadecimal representation of the value
  \<open>((0xC0000000 + ledgerIndex) << 32) | (transactionIndex << 16) | networkId\<close>; the
  string has only characters of \<open>0-9A-F\<close> (no prefix, no separator), and the value is
  the number \<open>(0xC0000000 + ledgerIndex) * 2^32 + transactionIndex * 2^16 + networkId\<close>:
  nothing is lost to the width of 64 bits.
\<close>

theorem encodeCTIM_is_hex_of_value:
  assumes "lgrIndex \<le> 0xFFFFFFF" "uint txnIndex \<le> 0xFFFF" "uint networkId \<le> 0xFFFF"
  shows "encodeCTIM lgrIndex txnIndex networkId
           = Some (spec_hex16 (spec_ctim_value lgrIndex txnIndex networkId))
       \<and> length (spec_hex16 (spec_ctim_value lgrIndex txnIndex networkId)) = 16
       \<and> set (spec_hex16 (spec_ctim_value lgrIndex txnIndex networkId))
           \<subseteq> set ''0123456789ABCDEF''
       \<and> unat (spec_ctim_value lgrIndex txnIndex networkId)
           = (0xC0000000 + unat lgrIndex) * 2 ^ 32 + unat txnIndex * 2 ^ 16 + unat networkId
       \<and> (0xC0000000 + unat lgrIndex) * 2 ^ 32 + unat txnIndex * 2 ^ 16 + unat networkId
           < (2::nat) ^ 64"
proof -
  let ?v = "spec_ctim_value lgrIndex txnIndex networkId"
  have "encodeCTIM lgrIndex txnIndex networkId = Some (spec_hex16 ?v)"
    using assms(1) by (simp add: encodeCTIM_in_range format_hex16_spec ctimValue_of_spec)
  moreover have "length (spec_hex16 ?v) = 16"
    by (simp add: spec_hex16_def length_spec_hex_fixed)
  moreover have "set (spec_hex16 ?v) \<subseteq> set ''0123456789ABCDEF''"
    using in_class_spec_hex_fixed [of 16 "unat ?v"]
    unfolding spec_hex16_def list_all_iff in_class_0_9A_F_iff by blast
  moreover have u: "unat ?v
      = (0xC0000000 + unat lgrIndex) * 2 ^ 32 + unat txnIndex * 2 ^ 16 + unat networkId"
    using unat_ctimValue_of [OF assms(1), of txnIndex networkId]
    by (simp only: ctimValue_of_spec)
  moreover have "(0xC0000000 + unat lgrIndex) * 2 ^ 32 + unat txnIndex * 2 ^ 16 + unat networkId
      < (2::nat) ^ 64"
    using unsigned_less [of ?v, where ?'a = nat] unfolding u by simp
  ultimately show ?thesis by blast
qed

theorem encodeCTIM_is_hex_of_value_witness:
  "(1 :: uint32_t) \<le> 0xFFFFFFF \<and> uint (2 :: uint16_t) \<le> 0xFFFF \<and> uint (3 :: uint16_t) \<le> 0xFFFF
   \<and> encodeCTIM 1 2 3 = Some (spec_hex16 (spec_ctim_value 1 2 3))
   \<and> spec_hex16 (spec_ctim_value 1 2 3) = ''C000000100020003''
   \<and> unat (spec_ctim_value 1 2 3) = (0xC0000000 + 1) * 2 ^ 32 + 2 * 2 ^ 16 + 3"
  using encodeCTIM_is_hex_of_value [of 1 2 3] encodeCTIM_1_2_3 by simp

text \<open>
  C3. On the integral path \<open>decodeCTIM\<close> returns no result exactly when
  \<open>(v & 0xF000000000000000) != 0xC000000000000000\<close>. For every other 64-bit value it
  returns the triple \<open>((v >> 32) & 0xFFFFFFF, (v >> 16) & 0xFFFF, v & 0xFFFF)\<close>: the
  conversions to \<open>uint32_t\<close> and \<open>uint16_t\<close> drop no bit, and the components are at
  most \<open>0xFFFFFFF\<close>, \<open>0xFFFF\<close> and \<open>0xFFFF\<close>.
\<close>

theorem decodeCTIM_integral_unpacks:
  "(decodeCTIM (IntegralInput v) = Inr None
      \<longleftrightarrow> v AND 0xF000000000000000 \<noteq> 0xC000000000000000)
   \<and> (v AND 0xF000000000000000 = 0xC000000000000000 \<longrightarrow>
        (\<exists>lgrIndex txnIndex networkId.
           decodeCTIM (IntegralInput v) = Inr (Some (lgrIndex, txnIndex, networkId))
           \<and> (ucast lgrIndex :: uint64_t) = drop_bit 32 v AND 0xFFFFFFF
           \<and> (ucast txnIndex :: uint64_t) = drop_bit 16 v AND 0xFFFF
           \<and> (ucast networkId :: uint64_t) = v AND 0xFFFF
           \<and> lgrIndex \<le> 0xFFFFFFF \<and> uint txnIndex \<le> 0xFFFF \<and> uint networkId \<le> 0xFFFF))"
proof (intro conjI impI)
  show "decodeCTIM (IntegralInput v) = Inr None
      \<longleftrightarrow> v AND 0xF000000000000000 \<noteq> 0xC000000000000000"
    by (simp add: decodeCTIM_def unpackCTIM_tagged)
next
  assume tag: "v AND 0xF000000000000000 = 0xC000000000000000"
  let ?l = "ucast (drop_bit 32 v AND 0xFFFFFFF) :: uint32_t"
  let ?t = "ucast (drop_bit 16 v AND 0xFFFF) :: uint16_t"
  let ?n = "ucast (v AND 0xFFFF) :: uint16_t"
  have "decodeCTIM (IntegralInput v) = Inr (Some (?l, ?t, ?n))"
    using tag by (simp add: decodeCTIM_def unpackCTIM_tagged)
  moreover have "(ucast ?l :: uint64_t) = drop_bit 32 v AND 0xFFFFFFF"
    "(ucast ?t :: uint64_t) = drop_bit 16 v AND 0xFFFF"
    "(ucast ?n :: uint64_t) = v AND 0xFFFF"
    by (rule unpack_no_truncation)+
  moreover have "?l \<le> 0xFFFFFFF" by (rule unpack_lgrIndex_le)
  moreover have "uint ?t \<le> 0xFFFF" "uint ?n \<le> 0xFFFF" by (rule uint16_le)+
  ultimately show "\<exists>lgrIndex txnIndex networkId.
           decodeCTIM (IntegralInput v) = Inr (Some (lgrIndex, txnIndex, networkId))
           \<and> (ucast lgrIndex :: uint64_t) = drop_bit 32 v AND 0xFFFFFFF
           \<and> (ucast txnIndex :: uint64_t) = drop_bit 16 v AND 0xFFFF
           \<and> (ucast networkId :: uint64_t) = v AND 0xFFFF
           \<and> lgrIndex \<le> 0xFFFFFFF \<and> uint txnIndex \<le> 0xFFFF \<and> uint networkId \<le> 0xFFFF"
    by blast
qed

theorem decodeCTIM_integral_unpacks_witness:
  "(0xC0CA2AA7326FC045 :: uint64_t) AND 0xF000000000000000 = 0xC000000000000000
   \<and> decodeCTIM (IntegralInput 0xC0CA2AA7326FC045) = Inr (Some (13249191, 12911, 49221))
   \<and> (13249191 :: uint32_t) \<le> 0xFFFFFFF
   \<and> (ucast (13249191 :: uint32_t) :: uint64_t) = drop_bit 32 0xC0CA2AA7326FC045 AND 0xFFFFFFF
   \<and> (0xFFFFFFFFFFFFFFFF :: uint64_t) AND 0xF000000000000000 \<noteq> 0xC000000000000000
   \<and> decodeCTIM (IntegralInput 0xFFFFFFFFFFFFFFFF) = Inr None"
  using decodeCTIM_integral_unpacks [of "0xC0CA2AA7326FC045"]
    decodeCTIM_integral_unpacks [of "0xFFFFFFFFFFFFFFFF"]
  by (simp add: decode_eval)

text \<open>
  C4. \<open>encodeCTIM\<close> returns no result when the ledger index exceeds \<open>0xFFFFFFF\<close>, when
  the transaction index exceeds \<open>0xFFFF\<close> or when the network id exceeds \<open>0xFFFF\<close>; it
  returns none for \<open>(0x10000000, 0xFFFF, 0xFFFF)\<close>, and it returns a result for every
  in-range input. (The parameters \<open>txnIndex\<close> and \<open>networkId\<close> are \<open>uint16_t\<close>, so
  only the first of the three checks can fire, as the comments of test cases 3 and 4
  in the source say.)
\<close>

theorem encodeCTIM_range_checks:
  "(lgrIndex > 0xFFFFFFF \<or> uint txnIndex > 0xFFFF \<or> uint networkId > 0xFFFF
      \<longrightarrow> encodeCTIM lgrIndex txnIndex networkId = None)
   \<and> encodeCTIM 0x10000000 0xFFFF 0xFFFF = None
   \<and> (lgrIndex \<le> 0xFFFFFFF \<and> uint txnIndex \<le> 0xFFFF \<and> uint networkId \<le> 0xFFFF
      \<longrightarrow> encodeCTIM lgrIndex txnIndex networkId \<noteq> None)"
proof (intro conjI impI)
  assume "lgrIndex > 0xFFFFFFF \<or> uint txnIndex > 0xFFFF \<or> uint networkId > 0xFFFF"
  then show "encodeCTIM lgrIndex txnIndex networkId = None"
    by (auto simp: encodeCTIM_def)
next
  show "encodeCTIM 0x10000000 0xFFFF 0xFFFF = None"
    by (rule encodeCTIM_too_large)
next
  assume "lgrIndex \<le> 0xFFFFFFF \<and> uint txnIndex \<le> 0xFFFF \<and> uint networkId \<le> 0xFFFF"
  then show "encodeCTIM lgrIndex txnIndex networkId \<noteq> None"
    by (simp add: encodeCTIM_in_range)
qed

theorem encodeCTIM_range_checks_witness:
  "(0x10000001 :: uint32_t) > 0xFFFFFFF \<and> encodeCTIM 0x10000001 7 9 = None
   \<and> (0xFFFFFFF :: uint32_t) \<le> 0xFFFFFFF \<and> uint (0xFFFF :: uint16_t) \<le> 0xFFFF
   \<and> encodeCTIM 0xFFFFFFF 0xFFFF 0xFFFF \<noteq> None"
  using encodeCTIM_range_checks [of "0x10000001" 7 9]
    encodeCTIM_range_checks [of "0xFFFFFFF" "0xFFFF" "0xFFFF"]
  by simp

text \<open>
  C5. On the string path \<open>decodeCTIM\<close> returns no result for every string whose length
  is not 16 and for every string of 16 characters with a character outside \<open>0-9A-F\<close>;
  the lowercase letters \<open>a\<close> to \<open>f\<close> are outside. A string is parsed only after both
  checks: every string that gets a result has 16 characters of \<open>0-9A-F\<close>, and for such
  a string the parse returns a 64-bit value, which is then unpacked.
\<close>

theorem decodeCTIM_string_guards:
  "(length s \<noteq> 16 \<longrightarrow> decodeCTIM (StringInput s) = Inr None)
   \<and> (length s = 16 \<and> \<not> set s \<subseteq> set ''0123456789ABCDEF''
        \<longrightarrow> decodeCTIM (StringInput s) = Inr None)
   \<and> set ''abcdef'' \<inter> set ''0123456789ABCDEF'' = {}
   \<and> (length s = 16 \<and> set s \<subseteq> set ''0123456789ABCDEF''
        \<longrightarrow> (\<exists>v. stoull16 s = Inr v \<and> decodeCTIM (StringInput s) = Inr (unpackCTIM v)))
   \<and> (\<forall>r. decodeCTIM (StringInput s) = Inr (Some r)
        \<longrightarrow> length s = 16 \<and> set s \<subseteq> set ''0123456789ABCDEF'')"
proof -
  have cls: "list_all in_class_0_9A_F s \<longleftrightarrow> set s \<subseteq> set ''0123456789ABCDEF''"
    unfolding list_all_iff in_class_0_9A_F_iff by blast
  have len: "length s \<noteq> 16 \<longrightarrow> decodeCTIM (StringInput s) = Inr None"
    by (simp add: decodeCTIM_def)
  have chars: "length s = 16 \<and> \<not> set s \<subseteq> set ''0123456789ABCDEF''
        \<longrightarrow> decodeCTIM (StringInput s) = Inr None"
    using cls by (simp add: decodeCTIM_def regex_match_0_9A_F_def)
  have lower: "set ''abcdef'' \<inter> set ''0123456789ABCDEF'' = {}"
    by simp
  have ok: "length s = 16 \<and> set s \<subseteq> set ''0123456789ABCDEF''
        \<longrightarrow> (\<exists>v. stoull16 s = Inr v \<and> decodeCTIM (StringInput s) = Inr (unpackCTIM v))"
  proof
    assume a: "length s = 16 \<and> set s \<subseteq> set ''0123456789ABCDEF''"
    then have c: "list_all in_class_0_9A_F s" using cls by simp
    from a have ne: "s \<noteq> []" by auto
    from a c have "stoull16 s = Inr (word_of_nat (fst (strtoull_digits 0 False s)))"
      using stoull16_guarded by blast
    then show "\<exists>v. stoull16 s = Inr v \<and> decodeCTIM (StringInput s) = Inr (unpackCTIM v)"
      using a c ne by (simp add: decodeCTIM_def regex_match_0_9A_F_def)
  qed
  have only: "\<forall>r. decodeCTIM (StringInput s) = Inr (Some r)
        \<longrightarrow> length s = 16 \<and> set s \<subseteq> set ''0123456789ABCDEF''"
    using cls by (auto simp: decodeCTIM_def regex_match_0_9A_F_def split: if_splits)
  from len chars lower ok only show ?thesis by blast
qed

theorem decodeCTIM_string_guards_witness:
  "(length ''C003FFFFFFFFFFF'' \<noteq> 16 \<and> decodeCTIM (StringInput ''C003FFFFFFFFFFF'') = Inr None)
   \<and> (length ''c0ca2aa7326fc045'' = 16 \<and> \<not> set ''c0ca2aa7326fc045'' \<subseteq> set ''0123456789ABCDEF''
        \<and> decodeCTIM (StringInput ''c0ca2aa7326fc045'') = Inr None)
   \<and> (length ''C0CA2AA7326FC045'' = 16 \<and> set ''C0CA2AA7326FC045'' \<subseteq> set ''0123456789ABCDEF''
        \<and> stoull16 ''C0CA2AA7326FC045'' = Inr 0xC0CA2AA7326FC045
        \<and> decodeCTIM (StringInput ''C0CA2AA7326FC045'') = Inr (Some (13249191, 12911, 49221)))"
  using decodeCTIM_string_guards [of "''C003FFFFFFFFFFF''"]
    decodeCTIM_string_guards [of "''c0ca2aa7326fc045''"]
    decodeCTIM_string_guards [of "''C0CA2AA7326FC045''"]
  by (simp add: decode_eval)

text \<open>
  C6. Every string that \<open>encodeCTIM\<close> returns starts with the character \<open>C\<close>, and the
  64-bit value it writes, masked with \<open>0xF000000000000000\<close>, is \<open>0xC000000000000000\<close>.
  The largest ledger index \<open>0xFFFFFFF\<close> is an in-range input like any other: the
  addition of the tag carries nothing into the top four bits.
\<close>

theorem encodeCTIM_tag_nibble:
  assumes "encodeCTIM lgrIndex txnIndex networkId = Some s"
  shows "s \<noteq> [] \<and> hd s = CHR ''C''
     \<and> stoull16 s = Inr (ctimValue_of lgrIndex txnIndex networkId)
     \<and> ctimValue_of lgrIndex txnIndex networkId AND 0xF000000000000000 = 0xC000000000000000"
proof -
  let ?v = "ctimValue_of lgrIndex txnIndex networkId"
  have range: "lgrIndex \<le> 0xFFFFFFF"
  proof (rule ccontr)
    assume "\<not> lgrIndex \<le> 0xFFFFFFF"
    then have "encodeCTIM lgrIndex txnIndex networkId = None"
      by (rule encodeCTIM_out_of_range)
    with assms show False by simp
  qed
  with assms have s: "s = spec_hex_fixed (Suc 15) (unat ?v)"
    by (simp add: encodeCTIM_in_range format_hex16_spec spec_hex16_def)
  have "length s = 16" unfolding s by (simp add: length_spec_hex_fixed)
  then have "s \<noteq> []" by auto
  moreover have "hd s = CHR ''C''"
    unfolding s hd_spec_hex_fixed top_digit_ctimValue_of [OF range] by simp
  moreover have "stoull16 s = Inr ?v"
    using stoull16_spec_hex16 [of ?v] unfolding s by (simp add: spec_hex16_def)
  moreover have "?v AND 0xF000000000000000 = 0xC000000000000000"
    using range by (rule ctimValue_of_tag)
  ultimately show ?thesis by blast
qed

theorem encodeCTIM_tag_nibble_witness:
  "encodeCTIM 0xFFFFFFF 0xFFFF 0xFFFF = Some ''CFFFFFFFFFFFFFFF''
   \<and> hd ''CFFFFFFFFFFFFFFF'' = CHR ''C''
   \<and> stoull16 ''CFFFFFFFFFFFFFFF'' = Inr (ctimValue_of 0xFFFFFFF 0xFFFF 0xFFFF)
   \<and> ctimValue_of 0xFFFFFFF 0xFFFF 0xFFFF AND 0xF000000000000000 = 0xC000000000000000"
  using encodeCTIM_tag_nibble [OF encodeCTIM_max] encodeCTIM_max by simp

text \<open>
  C7. The vectors of the test cases: \<open>encodeCTIM(0xFFFFFFF, 0xFFFF, 0xFFFF)\<close> is
  \<open>CFFFFFFFFFFFFFFF\<close>, \<open>encodeCTIM(0, 0, 0)\<close> is \<open>C000000000000000\<close>,
  \<open>encodeCTIM(1, 2, 3)\<close> is \<open>C000000100020003\<close>,
  \<open>encodeCTIM(13249191, 12911, 49221)\<close> is \<open>C0CA2AA7326FC045\<close>, and
  \<open>decodeCTIM(0xC000000100020003)\<close> is \<open>(1, 2, 3)\<close>.
\<close>

theorem ctim_test_vectors:
  "encodeCTIM 0xFFFFFFF 0xFFFF 0xFFFF = Some ''CFFFFFFFFFFFFFFF''
   \<and> encodeCTIM 0 0 0 = Some ''C000000000000000''
   \<and> encodeCTIM 1 2 3 = Some ''C000000100020003''
   \<and> encodeCTIM 13249191 12911 49221 = Some ''C0CA2AA7326FC045''
   \<and> decodeCTIM (IntegralInput 0xC000000100020003) = Inr (Some (1, 2, 3))"
  by (simp only: encodeCTIM_max encodeCTIM_zero encodeCTIM_1_2_3 encodeCTIM_sample
      decodeCTIM_value_1_2_3 simp_thms)



text \<open>
  C10. Reverse round trip. For every 64-bit value whose top four bits are \<open>0xC\<close>,
  \<open>decodeCTIM\<close> returns a triple, \<open>encodeCTIM\<close> accepts the triple and packs it into
  the same value, and its result is the 16-character uppercase hexadecimal
  representation of the value.
\<close>

theorem decode_encode_roundtrip:
  assumes "v AND 0xF000000000000000 = 0xC000000000000000"
  shows "\<exists>lgrIndex txnIndex networkId.
           decodeCTIM (IntegralInput v) = Inr (Some (lgrIndex, txnIndex, networkId))
           \<and> ctimValue_of lgrIndex txnIndex networkId = v
           \<and> encodeCTIM lgrIndex txnIndex networkId = Some (spec_hex16 v)"
proof -
  let ?l = "ucast (drop_bit 32 v AND 0xFFFFFFF) :: uint32_t"
  let ?t = "ucast (drop_bit 16 v AND 0xFFFF) :: uint16_t"
  let ?n = "ucast (v AND 0xFFFF) :: uint16_t"
  have dec: "decodeCTIM (IntegralInput v) = Inr (Some (?l, ?t, ?n))"
    using assms by (simp add: decodeCTIM_def unpackCTIM_tagged)
  have val: "ctimValue_of ?l ?t ?n = v"
    using assms by (rule ctimValue_of_unpack)
  have "encodeCTIM ?l ?t ?n = Some (format_hex16 (ctimValue_of ?l ?t ?n))"
    using unpack_lgrIndex_le by (rule encodeCTIM_in_range)
  then have enc: "encodeCTIM ?l ?t ?n = Some (spec_hex16 v)"
    by (simp only: val format_hex16_spec)
  from dec val enc show ?thesis by blast
qed

theorem decode_encode_roundtrip_witness:
  "(0xC0CA2AA7326FC045 :: uint64_t) AND 0xF000000000000000 = 0xC000000000000000
   \<and> (\<exists>lgrIndex txnIndex networkId.
         decodeCTIM (IntegralInput 0xC0CA2AA7326FC045) = Inr (Some (lgrIndex, txnIndex, networkId))
         \<and> ctimValue_of lgrIndex txnIndex networkId = 0xC0CA2AA7326FC045
         \<and> encodeCTIM lgrIndex txnIndex networkId = Some (spec_hex16 0xC0CA2AA7326FC045))"
  using decode_encode_roundtrip [of "0xC0CA2AA7326FC045"] by simp

end
